theory Spec2Isabelle
  imports Complex_Main
begin

section \<open>THERMASCAN: the simulation and anomaly-detection engine of script.js\<close>

text \<open>
  The engine keeps a pack of 96 battery cells (an 8 x 12 grid, row-major), perturbs every
  cell at each tick, classifies each cell, derives a pack-wide banner and keeps a bounded
  history of temperature samples. JavaScript numbers are modelled as exact reals: sums,
  products and comparisons are those of the real numbers, not of IEEE doubles. The three
  non-finite doubles appear only where the source can produce them (the statistics of an
  empty pack, a division by a zero average) and are written out at those places.
  \<open>Math.random()\<close> is an explicit argument: a function \<open>rs\<close> whose value \<open>rs k\<close> is the
  result of the \<open>k\<close>-th call made by the modelled code. \<open>new Date().toLocaleTimeString()\<close>
  is an explicit string argument. Writes to the DOM and to the chart widgets are left out.
\<close>

subsection \<open>CONFIG\<close>

definition ROWS :: nat where "ROWS = 8"
definition COLS :: nat where "COLS = 12"
definition TOTAL_CELLS :: nat where "TOTAL_CELLS = 96"

text \<open>\<open>CONFIG.TEMP_THRESHOLDS\<close>\<close>

definition COOL_MAX :: real where "COOL_MAX = 28"
definition NORMAL_MAX :: real where "NORMAL_MAX = 40"
definition ELEVATED_MAX :: real where "ELEVATED_MAX = 45"
definition WARNING_MAX :: real where "WARNING_MAX = 55"
definition CRITICAL_TEMP :: real where "CRITICAL_TEMP = 55"

definition VOLTAGE_DEVIATION :: real where "VOLTAGE_DEVIATION = 0.1"
definition SOH_CRITICAL :: real where "SOH_CRITICAL = 70"

lemmas CONFIG_defs =
  ROWS_def COLS_def TOTAL_CELLS_def COOL_MAX_def NORMAL_MAX_def ELEVATED_MAX_def
  WARNING_MAX_def CRITICAL_TEMP_def VOLTAGE_DEVIATION_def SOH_CRITICAL_def

subsection \<open>class BatteryCell\<close>

datatype status = NORMAL | WARNING | CRITICAL

text \<open>
  Reading a property of \<open>undefined\<close> (an array read out of range) raises a TypeError.
\<close>

datatype error = TypeError

record cell =
  id_cell :: string
  row :: nat
  col :: nat
  temperature :: real
  voltage :: real
  current :: real
  soc :: real
  soh :: real
  resistance :: real
  cycles :: int
  anomalyStatus :: status

text \<open>\<open>randomInRange(min, max)\<close>, with the draw \<open>r\<close> of \<open>Math.random()\<close> made explicit.\<close>

definition randomInRange :: "real \<Rightarrow> real \<Rightarrow> real \<Rightarrow> real" where
  "randomInRange r lo hi = r * (hi - lo) + lo"

text \<open>The constructor makes seven draws, in the order of its assignments.\<close>

definition BatteryCell :: "(nat \<Rightarrow> real) \<Rightarrow> string \<Rightarrow> nat \<Rightarrow> nat \<Rightarrow> cell" where
  "BatteryCell rs i r c =
     \<lparr> id_cell = i, row = r, col = c,
       temperature = randomInRange (rs 0) 25 35,
       voltage = randomInRange (rs 1) 3.6 3.8,
       current = randomInRange (rs 2) (- 5) 20,
       soc = randomInRange (rs 3) 60 100,
       soh = randomInRange (rs 4) 80 100,
       resistance = randomInRange (rs 5) 1 5,
       cycles = \<lfloor>randomInRange (rs 6) 200 1200\<rfloor>,
       anomalyStatus = NORMAL \<rparr>"

text \<open>\<open>update()\<close>: four draws, then the three clamps.\<close>

definition update :: "(nat \<Rightarrow> real) \<Rightarrow> cell \<Rightarrow> cell" where
  "update rs c =
     (let c1 = c\<lparr>temperature := temperature c + (rs 0 - 0.5) * 0.5\<rparr>;
          c2 = c1\<lparr>voltage := voltage c1 + (rs 1 - 0.5) * 0.01\<rparr>;
          c3 = c2\<lparr>current := current c2 + (rs 2 - 0.5) * 2\<rparr>;
          c4 = c3\<lparr>soc := soc c3 + (rs 3 - 0.5) * 0.5\<rparr>;
          c5 = c4\<lparr>temperature := max 20 (min 60 (temperature c4))\<rparr>;
          c6 = c5\<lparr>voltage := max 3.0 (min 4.2 (voltage c5))\<rparr>
      in c6\<lparr>soc := max 0 (min 100 (soc c6))\<rparr>)"

definition getTempClass :: "cell \<Rightarrow> string" where
  "getTempClass c =
     (if temperature c < COOL_MAX then ''temp-cool''
      else if temperature c < NORMAL_MAX then ''temp-normal''
      else if temperature c < ELEVATED_MAX then ''temp-elevated''
      else if temperature c < WARNING_MAX then ''temp-warning''
      else ''temp-critical'')"

subsection \<open>generateBatteryData\<close>

text \<open>\<open>String(n)\<close> for a non-negative integer, and \<open>padStart\<close>.\<close>

definition digit :: "nat \<Rightarrow> char" where
  "digit d = ''0123456789'' ! d"

fun String_nat :: "nat \<Rightarrow> string" where
  "String_nat n = (if n < 10 then [digit n] else String_nat (n div 10) @ [digit (n mod 10)])"

declare String_nat.simps [simp del]

definition padStart :: "nat \<Rightarrow> char \<Rightarrow> string \<Rightarrow> string" where
  "padStart w ch s = replicate (w - length s) ch @ s"

text \<open>
  The two nested loops push one cell per grid position, row by row; \<open>cellId\<close> starts at 1
  and grows by one per cell, so the cell at \<open>(row, col)\<close> is built with
  \<open>cellId = row * COLS + col + 1\<close>, from the draws \<open>7 * (cellId - 1)\<close> onwards.
\<close>

definition generateBatteryData :: "(nat \<Rightarrow> real) \<Rightarrow> cell list" where
  "generateBatteryData rs =
     concat (map (\<lambda>r. map (\<lambda>c.
        (let cellId = r * COLS + c + 1
         in BatteryCell (\<lambda>k. rs (7 * (cellId - 1) + k))
              (''CELL-'' @ padStart 3 CHR ''0'' (String_nat cellId)) r c))
        [0..<COLS]) [0..<ROWS])"

subsection \<open>getNeighbors and isThermalCluster\<close>

text \<open>
  The two loops over \<open>dr\<close> and \<open>dc\<close> run through \<open>-1, 0, 1\<close> in this order and push the
  linear index of every position inside the grid.
\<close>

definition getNeighbors :: "nat \<Rightarrow> nat list" where
  "getNeighbors index =
     (let r = int (index div COLS); c = int (index mod COLS)
      in concat (map (\<lambda>dr. concat (map (\<lambda>dc.
           if dr = 0 \<and> dc = 0 then []
           else (let newRow = r + dr; newCol = c + dc
                 in if newRow \<ge> 0 \<and> newRow < int ROWS \<and> newCol \<ge> 0 \<and> newCol < int COLS
                    then [nat (newRow * int COLS + newCol)] else []))
           [- 1, 0, 1])) [- 1, 0, 1]))"

text \<open>
  \<open>batteryData[index]\<close> and \<open>batteryData[n]\<close> are \<open>undefined\<close> out of range, and reading
  \<open>.temperature\<close> of \<open>undefined\<close> raises.
\<close>

definition isThermalCluster :: "cell list \<Rightarrow> nat \<Rightarrow> error + bool" where
  "isThermalCluster batteryData index =
     (if index \<ge> length batteryData then Inl TypeError
      else if temperature (batteryData ! index) < ELEVATED_MAX then Inr False
      else (let neighbors = getNeighbors index
            in if list_ex (\<lambda>n. n \<ge> length batteryData) neighbors then Inl TypeError
               else (let hotNeighbors =
                           filter (\<lambda>n. temperature (batteryData ! n) \<ge> ELEVATED_MAX) neighbors
                     in Inr (length hotNeighbors \<ge> 2))))"

subsection \<open>detectAnomalies and updateAnomalyStatus\<close>

definition avgVoltage :: "cell list \<Rightarrow> real" where
  "avgVoltage batteryData =
     foldl (\<lambda>sum c. sum + voltage c) 0 batteryData / real (length batteryData)"

text \<open>
  \<open>Math.abs(cell.voltage - avgVoltage) / avgVoltage > CONFIG.VOLTAGE_DEVIATION\<close>. A double
  divided by zero is Infinity (greater than every threshold) unless it is zero itself (NaN,
  which compares false); HOL's \<open>x / 0\<close> is \<open>0\<close>, so the case is written out.
\<close>

definition voltageDeviationExceeds :: "real \<Rightarrow> real \<Rightarrow> bool" where
  "voltageDeviationExceeds v avg =
     (if avg = 0 then \<bar>v - avg\<bar> \<noteq> 0
      else \<bar>v - avg\<bar> / avg > VOLTAGE_DEVIATION)"

text \<open>The three rules of the loop body, in the order of the source.\<close>

definition temperatureRule :: "cell \<Rightarrow> cell" where
  "temperatureRule c =
     (if temperature c > CRITICAL_TEMP then c\<lparr>anomalyStatus := CRITICAL\<rparr>
      else if temperature c > WARNING_MAX then c\<lparr>anomalyStatus := WARNING\<rparr>
      else c)"

definition voltageRule :: "real \<Rightarrow> cell \<Rightarrow> cell" where
  "voltageRule avg c =
     (if voltageDeviationExceeds (voltage c) avg
      then (if anomalyStatus c = NORMAL then c\<lparr>anomalyStatus := WARNING\<rparr> else c)
      else c)"

definition sohRule :: "cell \<Rightarrow> cell" where
  "sohRule c = (if soh c < SOH_CRITICAL then c\<lparr>anomalyStatus := CRITICAL\<rparr> else c)"

definition detectCell :: "real \<Rightarrow> cell \<Rightarrow> cell" where
  "detectCell avg c = sohRule (voltageRule avg (temperatureRule (c\<lparr>anomalyStatus := NORMAL\<rparr>)))"

text \<open>
  \<open>batteryData.filter((_, index) => isThermalCluster(index))\<close>, over the given indices;
  the first raise ends it.
\<close>

fun clusterFilter :: "cell list \<Rightarrow> nat list \<Rightarrow> error + cell list" where
  "clusterFilter batteryData [] = Inr []"
| "clusterFilter batteryData (i # js) =
     (case isThermalCluster batteryData i of
        Inl e \<Rightarrow> Inl e
      | Inr b \<Rightarrow>
          (case clusterFilter batteryData js of
             Inl e \<Rightarrow> Inl e
           | Inr cs \<Rightarrow> Inr (if b then batteryData ! i # cs else cs)))"

text \<open>The banner text that \<open>updateAnomalyStatus\<close> writes, or the error it raises.\<close>

definition updateAnomalyStatus :: "cell list \<Rightarrow> error + string" where
  "updateAnomalyStatus batteryData =
     (let criticalCells = filter (\<lambda>c. anomalyStatus c = CRITICAL) batteryData;
          warningCells = filter (\<lambda>c. anomalyStatus c = WARNING) batteryData
      in case clusterFilter batteryData [0..<length batteryData] of
           Inl e \<Rightarrow> Inl e
         | Inr clusterCells \<Rightarrow>
             Inr (if length criticalCells > 0
                  then (if length clusterCells \<ge> 3 then ''THERMAL CLUSTER DETECTED''
                        else ''CRITICAL'')
                  else if length warningCells > 0 then ''WARNING''
                  else ''NORMAL''))"

text \<open>
  \<open>detectAnomalies\<close> rewrites every cell's status and then calls \<open>updateAnomalyStatus\<close>:
  the result is the pack as it is left, with the banner or the error of that call.
\<close>

definition detectAnomalies :: "cell list \<Rightarrow> cell list \<times> (error + string)" where
  "detectAnomalies batteryData =
     (let avg = avgVoltage batteryData;
          batteryData' = map (detectCell avg) batteryData
      in (batteryData', updateAnomalyStatus batteryData'))"

subsection \<open>updateMetrics: the temperature history\<close>

text \<open>
  The statistics of an empty pack are not finite: \<open>0 / 0\<close> is NaN, \<open>Math.max()\<close> of no
  argument is \<open>-Infinity\<close> and \<open>Math.min()\<close> is \<open>Infinity\<close>.
\<close>

datatype jsnum = Num real | NaN | Infinity | NegInfinity

record sample =
  time :: string
  avg :: jsnum
  max_temp :: jsnum
  min_temp :: jsnum

text \<open>
  The object that \<open>updateMetrics\<close> pushes: the mean, the maximum and the minimum of the
  temperatures of the pack, with the time string \<open>now\<close> of the call.
\<close>

definition tempSample :: "string \<Rightarrow> cell list \<Rightarrow> sample" where
  "tempSample now batteryData =
     (let temps = map temperature batteryData;
          avgTemp = (if temps = [] then NaN
                     else Num (foldl (\<lambda>a b. a + b) 0 temps / real (length temps)));
          maxTemp = (if temps = [] then NegInfinity else Num (foldl max (hd temps) (tl temps)));
          minTemp = (if temps = [] then Infinity else Num (foldl min (hd temps) (tl temps)))
      in \<lparr> time = now, avg = avgTemp, max_temp = maxTemp, min_temp = minTemp \<rparr>)"

text \<open>
  \<open>updateMetrics\<close> pushes the sample and shifts the oldest one out when the history has
  grown beyond 20 entries.
\<close>

definition updateMetrics :: "string \<Rightarrow> cell list \<Rightarrow> sample list \<Rightarrow> sample list" where
  "updateMetrics now batteryData tempHistory =
     (let tempHistory' = tempHistory @ [tempSample now batteryData]
      in if length tempHistory' > 20 then tl tempHistory' else tempHistory')"

subsection \<open>simulateFault\<close>

text \<open>\<open>batteryData[i].temperature = t\<close> and \<open>batteryData[i].voltage = v\<close>.\<close>

definition setTemperature :: "cell list \<Rightarrow> int \<Rightarrow> real \<Rightarrow> error + cell list" where
  "setTemperature batteryData i t =
     (if 0 \<le> i \<and> i < int (length batteryData)
      then Inr (batteryData[nat i := (batteryData ! nat i)\<lparr>temperature := t\<rparr>])
      else Inl TypeError)"

definition setVoltage :: "cell list \<Rightarrow> int \<Rightarrow> real \<Rightarrow> error + cell list" where
  "setVoltage batteryData i v =
     (if 0 \<le> i \<and> i < int (length batteryData)
      then Inr (batteryData[nat i := (batteryData ! nat i)\<lparr>voltage := v\<rparr>])
      else Inl TypeError)"

text \<open>
  \<open>neighbors.slice(0, 3).forEach(n => ...)\<close>: one draw per neighbour, from draw \<open>k\<close> on.
\<close>

fun heatNeighbors :: "(nat \<Rightarrow> real) \<Rightarrow> nat \<Rightarrow> nat list \<Rightarrow> cell list \<Rightarrow> error + cell list" where
  "heatNeighbors rs k [] batteryData = Inr batteryData"
| "heatNeighbors rs k (n # ns) batteryData =
     (case setTemperature batteryData (int n) (ELEVATED_MAX + rs k * 5) of
        Inl e \<Rightarrow> Inl e
      | Inr batteryData' \<Rightarrow> heatNeighbors rs (Suc k) ns batteryData')"

text \<open>
  The first draw chooses the branch, the second the cell. In the second branch
  \<open>getNeighbors(centerIndex)\<close> is computed before the centre is written; it reads no cell.
\<close>

definition simulateFault :: "(nat \<Rightarrow> real) \<Rightarrow> cell list \<Rightarrow> error + cell list" where
  "simulateFault rs batteryData =
     (let faultType = rs 0
      in if faultType < 0.33 then
           (let randomIndex = \<lfloor>rs 1 * real (length batteryData)\<rfloor>
            in setTemperature batteryData randomIndex (CRITICAL_TEMP + rs 2 * 10))
         else if faultType < 0.66 then
           (let centerIndex = \<lfloor>rs 1 * real (length batteryData)\<rfloor>;
                neighbors = getNeighbors (nat centerIndex)
            in case setTemperature batteryData centerIndex (ELEVATED_MAX + rs 2 * 5) of
                 Inl e \<Rightarrow> Inl e
               | Inr batteryData' \<Rightarrow> heatNeighbors rs 3 (take 3 neighbors) batteryData')
         else
           (let randomIndex = \<lfloor>rs 1 * real (length batteryData)\<rfloor>;
                avg = foldl (\<lambda>sum c. sum + voltage c) 0 batteryData
                        / real (length batteryData)
            in setVoltage batteryData randomIndex (avg * (1 + VOLTAGE_DEVIATION + 0.05))))"

subsection \<open>The periodic update\<close>

record state =
  batteryData :: "cell list"
  tempHistory :: "sample list"

text \<open>\<open>batteryData.forEach(cell => cell.update())\<close>: cell \<open>i\<close> takes the draws \<open>4 * i\<close> to \<open>4 * i + 3\<close>.\<close>

definition updateCells :: "(nat \<Rightarrow> real) \<Rightarrow> cell list \<Rightarrow> cell list" where
  "updateCells rs cells = map (\<lambda>i. update (\<lambda>k. rs (4 * i + k)) (cells ! i)) [0..<length cells]"

text \<open>
  \<open>updateBatteryGrid\<close> asks \<open>isThermalCluster\<close> for every rendered cell (one per cell of
  the pack) and then calls \<open>updateMetrics\<close>.
\<close>

definition updateBatteryGrid :: "string \<Rightarrow> state \<Rightarrow> error + state" where
  "updateBatteryGrid now s =
     (case clusterFilter (batteryData s) [0..<length (batteryData s)] of
        Inl e \<Rightarrow> Inl e
      | Inr _ \<Rightarrow> Inr (s\<lparr>tempHistory := updateMetrics now (batteryData s) (tempHistory s)\<rparr>))"

text \<open>
  One run of the interval callback of \<open>startUpdateLoop\<close>: update every cell, detect, redraw
  (which records the sample). \<open>updateCharts\<close> only reads the state.
\<close>

definition tick :: "(nat \<Rightarrow> real) \<Rightarrow> string \<Rightarrow> state \<Rightarrow> error + state" where
  "tick rs now s =
     (case detectAnomalies (updateCells rs (batteryData s)) of
        (cells, Inl e) \<Rightarrow> Inl e
      | (cells, Inr banner) \<Rightarrow> updateBatteryGrid now (s\<lparr>batteryData := cells\<rparr>))"

text \<open>Successive ticks, each with its draws and its time string.\<close>

fun runTicks :: "((nat \<Rightarrow> real) \<times> string) list \<Rightarrow> state \<Rightarrow> error + state" where
  "runTicks [] s = Inr s"
| "runTicks ((rs, now) # ins) s =
     (case tick rs now s of Inl e \<Rightarrow> Inl e | Inr s' \<Rightarrow> runTicks ins s')"

text \<open>The sample that each of these ticks records, in the order of the ticks.\<close>

fun tickSamples :: "((nat \<Rightarrow> real) \<times> string) list \<Rightarrow> state \<Rightarrow> sample list" where
  "tickSamples [] s = []"
| "tickSamples ((rs, now) # ins) s =
     (case tick rs now s of
        Inl e \<Rightarrow> []
      | Inr s' \<Rightarrow> tempSample now (batteryData s') # tickSamples ins s')"

subsection \<open>The bounds of the data model\<close>

definition withinBounds :: "cell \<Rightarrow> bool" where
  "withinBounds c \<longleftrightarrow>
     20 \<le> temperature c \<and> temperature c \<le> 60
     \<and> 3.0 \<le> voltage c \<and> voltage c \<le> 4.2
     \<and> 0 \<le> soc c \<and> soc c \<le> 100"

subsection \<open>Example packs\<close>

text \<open>
  The pack generated when every draw is \<open>1/2\<close>: each cell has temperature 30, voltage 3.7,
  soc 80 and soh 90. The other packs differ from it in the fields named.
\<close>

definition pack0 :: "cell list" where
  "pack0 = generateBatteryData (\<lambda>k. 1 / 2)"

definition pack55 :: "cell list" where
  "pack55 = pack0[13 := (pack0 ! 13)\<lparr>temperature := 55\<rparr>]"

definition pack56 :: "cell list" where
  "pack56 = pack0[13 := (pack0 ! 13)\<lparr>temperature := 56\<rparr>]"

definition packWeak :: "cell list" where
  "packWeak = pack0[13 := (pack0 ! 13)\<lparr>temperature := 25, soh := 65\<rparr>]"

definition packVolt :: "cell list" where
  "packVolt = pack0[48 := (pack0 ! 48)\<lparr>voltage := 4.255\<rparr>]"

definition pack42 :: "cell list" where
  "pack42 = map (\<lambda>c. c\<lparr>temperature := 42\<rparr>) pack0"

definition pack50 :: "cell list" where
  "pack50 = map (\<lambda>c. c\<lparr>temperature := 50\<rparr>) pack0"

definition pack56all :: "cell list" where
  "pack56all = map (\<lambda>c. c\<lparr>temperature := 56\<rparr>) pack0"

text \<open>The state at start-up with the pack \<open>pack0\<close>, and 25 ticks numbered by their time strings.\<close>

definition state0 :: state where
  "state0 = \<lparr> batteryData = pack0, tempHistory = [] \<rparr>"

definition ticks25 :: "((nat \<Rightarrow> real) \<times> string) list" where
  "ticks25 = map (\<lambda>n. (\<lambda>k. 1 / 2, String_nat n)) [0..<25]"

text \<open>
  Draws that send \<open>simulateFault\<close> into its third branch and into its first branch, at
  cell 48 in both.
\<close>

definition drawsVoltageFault :: "nat \<Rightarrow> real" where
  "drawsVoltageFault k = (if k = 0 then 0.9 else 0.5)"

definition drawsHotspot :: "nat \<Rightarrow> real" where
  "drawsHotspot k = (if k = 0 then 0.2 else 0.5)"

section \<open>The grid: neighbours\<close>

lemma index_split: "i < 96 \<Longrightarrow> \<exists>r c. r < 8 \<and> c < 12 \<and> i = r * 12 + (c::nat)"
  by (rule exI [of _ "i div 12"], rule exI [of _ "i mod 12"]) auto

lemma getNeighbors_length_grid:
  assumes "r < 8" "c < 12"
  shows "length (getNeighbors (r * 12 + c)) =
     (if (r = 0 \<or> r = 7) \<and> (c = 0 \<or> c = 11) then 3 else if r = 0 \<or> r = 7 \<or> c = 0 \<or> c = 11 then 5 else 8)"
  using assms by (simp add: getNeighbors_def Let_def ROWS_def COLS_def)

lemma getNeighbors_range_grid:
  assumes "r < 8" "c < 12" "n \<in> set (getNeighbors (r * 12 + c))"
  shows "n < 96 \<and> n \<noteq> r * 12 + c"
  using assms by (auto simp add: getNeighbors_def Let_def ROWS_def COLS_def split: if_splits)

lemma getNeighbors_distinct_grid:
  assumes "r < 8" "c < 12" 
  shows "distinct (getNeighbors (r * 12 + c))"
  using assms by (auto simp add: getNeighbors_def Let_def ROWS_def COLS_def split: if_splits)

lemma getNeighbors_in_range: "i < TOTAL_CELLS \<Longrightarrow> n \<in> set (getNeighbors i) \<Longrightarrow> n < TOTAL_CELLS"
  using index_split [of i] getNeighbors_range_grid unfolding TOTAL_CELLS_def by blast

lemma getNeighbors_not_self: "i < TOTAL_CELLS \<Longrightarrow> n \<in> set (getNeighbors i) \<Longrightarrow> n \<noteq> i"
  using index_split [of i] getNeighbors_range_grid unfolding TOTAL_CELLS_def by blast

lemma getNeighbors_distinct: "i < TOTAL_CELLS \<Longrightarrow> distinct (getNeighbors i)"
  using index_split [of i] getNeighbors_distinct_grid unfolding TOTAL_CELLS_def by blast

lemma getNeighbors_at_least_3: "i < TOTAL_CELLS \<Longrightarrow> 3 \<le> length (getNeighbors i)"
  using index_split [of i] getNeighbors_length_grid
  by (fastforce simp: TOTAL_CELLS_def)

text \<open>
  Claim C8. On the 8 x 12 grid, for every linear index \<open>i\<close> below 96, \<open>getNeighbors i\<close>
  has exactly 3 entries when \<open>i\<close> is one of the four corners (0, 11, 84, 95), exactly 5
  when \<open>i\<close> lies on an edge but is no corner, and exactly 8 when \<open>i\<close> is interior; every
  entry is an index below 96 and differs from \<open>i\<close>.
\<close>

theorem getNeighbors_count:
  assumes "i < TOTAL_CELLS"
  shows "length (getNeighbors i) =
           (if i \<in> {0, 11, 84, 95} then 3
            else if i div COLS = 0 \<or> i div COLS = ROWS - 1 \<or> i mod COLS = 0 \<or> i mod COLS = COLS - 1
                 then 5
            else 8)
         \<and> list_all (\<lambda>n. n < TOTAL_CELLS \<and> n \<noteq> i) (getNeighbors i)"
proof -
  from assms obtain r c where rc: "r < 8" "c < 12" "i = r * 12 + c"
    using index_split [of i] by (auto simp: TOTAL_CELLS_def)
  have dm: "i div COLS = r" "i mod COLS = c"
    using rc by (simp_all add: COLS_def)
  have "(r = 0 \<or> r = 7) \<and> (c = 0 \<or> c = 11) \<Longrightarrow> i \<in> {0, 11, 84, 95}"
    using rc(3) by auto
  moreover have "i \<in> {0, 11, 84, 95} \<Longrightarrow> (r = 0 \<or> r = 7) \<and> (c = 0 \<or> c = 11)"
    using dm by (auto simp: COLS_def)
  ultimately have corner: "i \<in> {0, 11, 84, 95} \<longleftrightarrow> (r = 0 \<or> r = 7) \<and> (c = 0 \<or> c = 11)"
    by blast
  have len: "length (getNeighbors i) =
           (if i \<in> {0, 11, 84, 95} then 3
            else if i div COLS = 0 \<or> i div COLS = ROWS - 1 \<or> i mod COLS = 0 \<or> i mod COLS = COLS - 1
                 then 5
            else 8)"
    unfolding corner dm using getNeighbors_length_grid [OF rc(1,2)] rc(3)
    by (simp add: ROWS_def COLS_def)
  have "\<forall>n\<in>set (getNeighbors i). n < TOTAL_CELLS \<and> n \<noteq> i"
    using getNeighbors_in_range [OF assms] getNeighbors_not_self [OF assms] by blast
  then show ?thesis using len by (simp add: list_all_iff)
qed

theorem getNeighbors_count_witness:
  "(13::nat) < TOTAL_CELLS \<and> length (getNeighbors 13) = 8 \<and> getNeighbors 13 = [0, 1, 2, 12, 14, 24, 25, 26]
   \<and> length (getNeighbors 0) = 3 \<and> length (getNeighbors 5) = 5"
  using getNeighbors_count [of 13] getNeighbors_count [of 0] getNeighbors_count [of 5]
  by (simp add: TOTAL_CELLS_def ROWS_def COLS_def getNeighbors_def)

section \<open>The cell: construction and update\<close>

text \<open>
  Claim C9. \<open>update\<close> changes only temperature, voltage, current and soc: id, row, col,
  soh, resistance, cycles and anomalyStatus keep their values. The current is the old
  current plus its perturbation, with no clamp, and the resistance is not touched.
\<close>

theorem update_frame:
  "id_cell (update rs c) = id_cell c \<and> row (update rs c) = row c \<and> col (update rs c) = col c
   \<and> soh (update rs c) = soh c \<and> resistance (update rs c) = resistance c
   \<and> cycles (update rs c) = cycles c \<and> anomalyStatus (update rs c) = anomalyStatus c
   \<and> current (update rs c) = current c + (rs 2 - 0.5) * 2
   \<and> update rs c = c\<lparr>temperature := temperature (update rs c), voltage := voltage (update rs c),
                       current := current (update rs c), soc := soc (update rs c)\<rparr>"
  by (simp add: update_def Let_def)

lemma clamp_bounds:
  fixes lo hi x :: real
  shows "lo \<le> hi \<Longrightarrow> lo \<le> max lo (min hi x) \<and> max lo (min hi x) \<le> hi"
  by auto

lemma update_bounds:
  "20 \<le> temperature (update rs c) \<and> temperature (update rs c) \<le> 60
   \<and> 3.0 \<le> voltage (update rs c) \<and> voltage (update rs c) \<le> 4.2
   \<and> 0 \<le> soc (update rs c) \<and> soc (update rs c) \<le> 100"
  using clamp_bounds [of 20 60 "temperature c + (rs 0 - 0.5) * 0.5"]
    clamp_bounds [of "3.0" "4.2" "voltage c + (rs 1 - 0.5) * 0.01"]
    clamp_bounds [of 0 100 "soc c + (rs 3 - 0.5) * 0.5"]
  by (simp add: update_def Let_def)

lemma randomInRange_bounds:
  assumes "0 \<le> r" "r \<le> 1" "lo \<le> hi"
  shows "lo \<le> randomInRange r lo hi \<and> randomInRange r lo hi \<le> hi"
proof -
  have "0 \<le> r * (hi - lo)" using assms by simp
  moreover have "r * (hi - lo) \<le> 1 * (hi - lo)"
    using assms by (intro mult_right_mono) simp_all
  ultimately show ?thesis by (simp add: randomInRange_def)
qed

lemma BatteryCell_bounds:
  assumes "\<And>k. 0 \<le> rs k \<and> rs k \<le> 1"
  shows "25 \<le> temperature (BatteryCell rs i r c) \<and> temperature (BatteryCell rs i r c) \<le> 35
   \<and> 3.6 \<le> voltage (BatteryCell rs i r c) \<and> voltage (BatteryCell rs i r c) \<le> 3.8
   \<and> 60 \<le> soc (BatteryCell rs i r c) \<and> soc (BatteryCell rs i r c) \<le> 100"
  using randomInRange_bounds [of "rs 0" 25 35] randomInRange_bounds [of "rs 1" "3.6" "3.8"]
    randomInRange_bounds [of "rs 3" 60 100] assms
  by (simp add: BatteryCell_def)

lemma length_updateCells: "length (updateCells rs cells) = length cells"
  by (simp add: updateCells_def)

lemma nth_updateCells: "i < length cells \<Longrightarrow> updateCells rs cells ! i = update (\<lambda>k. rs (4 * i + k)) (cells ! i)"
  by (simp add: updateCells_def)

section \<open>The generated pack\<close>

lemma concat_grid_length:
  "length (concat (map (\<lambda>r. map (f r) [0..<n]) [0..<m])) = m * n"
  by (induction m) simp_all

lemma concat_grid_nth:
  "i < m * n \<Longrightarrow> concat (map (\<lambda>r. map (f r) [0..<n]) [0..<m]) ! i = f (i div n) (i mod n)"
proof (induction m)
  case 0
  then show ?case by simp
next
  case (Suc m)
  let ?g = "\<lambda>r. map (f r) [0..<n]"
  have split: "concat (map ?g [0..<Suc m]) = concat (map ?g [0..<m]) @ ?g m"
    by simp
  show ?case
  proof (cases "i < m * n")
    case True
    then have "concat (map ?g [0..<Suc m]) ! i = concat (map ?g [0..<m]) ! i"
      unfolding split by (simp only: nth_append concat_grid_length if_True)
    then show ?thesis using Suc.IH [OF True] by simp
  next
    case False
    then have lo: "n * m \<le> i" by (simp add: mult.commute)
    have hi: "i < n * Suc m" using Suc.prems by (simp add: mult.commute)
    have d: "i div n = m" using lo hi by (rule div_nat_eqI)
    have md: "i mod n = i - m * n" unfolding modulo_nat_def d ..
    have lt: "i - m * n < n" using lo hi by (simp add: mult.commute)
    have "concat (map ?g [0..<Suc m]) ! i = ?g m ! (i - m * n)"
      unfolding split using False by (simp only: nth_append concat_grid_length if_False)
    also have "\<dots> = f m (i - m * n)" using lt by simp
    finally show ?thesis by (simp only: d md)
  qed
qed

lemma length_generateBatteryData: "length (generateBatteryData rs) = TOTAL_CELLS"
  unfolding generateBatteryData_def concat_grid_length by (simp add: CONFIG_defs)

lemma nth_generateBatteryData:
  assumes "i < TOTAL_CELLS"
  shows "generateBatteryData rs ! i =
           BatteryCell (\<lambda>k. rs (7 * i + k)) (''CELL-'' @ padStart 3 CHR ''0'' (String_nat (i + 1)))
             (i div COLS) (i mod COLS)"
proof -
  have i: "i < ROWS * COLS" using assms by (simp add: CONFIG_defs)
  have eq: "i div COLS * COLS + i mod COLS + 1 - 1 = i" "i div COLS * COLS + i mod COLS + 1 = i + 1"
    by simp_all
  show ?thesis
    unfolding generateBatteryData_def concat_grid_nth [OF i] Let_def eq by simp
qed

lemma pack0_length: "length pack0 = TOTAL_CELLS"
  by (simp add: pack0_def length_generateBatteryData)

lemma pack0_nth:
  "i < TOTAL_CELLS \<Longrightarrow> temperature (pack0 ! i) = 30 \<and> voltage (pack0 ! i) = 3.7
     \<and> soh (pack0 ! i) = 90 \<and> soc (pack0 ! i) = 80 \<and> anomalyStatus (pack0 ! i) = NORMAL"
  by (simp add: pack0_def nth_generateBatteryData BatteryCell_def randomInRange_def)

lemma pack0_cell_13: "id_cell (pack0 ! 13) = ''CELL-014'' \<and> row (pack0 ! 13) = 1 \<and> col (pack0 ! 13) = 1"
  by (simp add: pack0_def nth_generateBatteryData BatteryCell_def CONFIG_defs padStart_def String_nat.simps [of 14] String_nat.simps [of "Suc 0"] digit_def)

section \<open>Anomaly detection\<close>

lemma detectCell_fields:
  "temperature (detectCell a c) = temperature c" "voltage (detectCell a c) = voltage c"
  "soh (detectCell a c) = soh c" "soc (detectCell a c) = soc c" "current (detectCell a c) = current c"
  "resistance (detectCell a c) = resistance c" "id_cell (detectCell a c) = id_cell c"
  "row (detectCell a c) = row c" "col (detectCell a c) = col c" "cycles (detectCell a c) = cycles c"
  by (simp_all add: detectCell_def sohRule_def voltageRule_def temperatureRule_def)

lemma detectCell_status:
  "anomalyStatus (detectCell a c) =
     (if soh c < SOH_CRITICAL then CRITICAL
      else if temperature c > CRITICAL_TEMP then CRITICAL
      else if voltageDeviationExceeds (voltage c) a then WARNING
      else NORMAL)"
  by (simp add: detectCell_def sohRule_def voltageRule_def temperatureRule_def WARNING_MAX_def CRITICAL_TEMP_def)

lemma detectCell_idem: "detectCell a (detectCell a c) = detectCell a c"
  by (simp add: detectCell_def sohRule_def voltageRule_def temperatureRule_def)

lemma foldl_voltage_map:
  "foldl (\<lambda>sum c. sum + voltage c) z (map (detectCell a) cs) = foldl (\<lambda>sum c. sum + voltage c) z cs"
  by (induction cs arbitrary: z) (simp_all add: detectCell_fields)

lemma avgVoltage_detect: "avgVoltage (map (detectCell a) cs) = avgVoltage cs"
  by (simp add: avgVoltage_def foldl_voltage_map)

lemma fst_detectAnomalies: "fst (detectAnomalies p) = map (detectCell (avgVoltage p)) p"
  by (simp add: detectAnomalies_def Let_def)

lemma nth_detectAnomalies:
  "i < length p \<Longrightarrow> fst (detectAnomalies p) ! i = detectCell (avgVoltage p) (p ! i)"
  by (simp add: fst_detectAnomalies)

lemma length_detectAnomalies: "length (fst (detectAnomalies p)) = length p"
  by (simp add: fst_detectAnomalies)

lemma voltageDeviationExceeds_nonzero:
  "a \<noteq> 0 \<Longrightarrow> voltageDeviationExceeds v a \<longleftrightarrow> \<bar>v - a\<bar> / a > 0.1"
  by (simp add: voltageDeviationExceeds_def VOLTAGE_DEVIATION_def)

lemma foldl_voltage_uniform:
  assumes "\<And>c. c \<in> set p \<Longrightarrow> voltage c = v"
  shows "foldl (\<lambda>sum c. sum + voltage c) z p = z + real (length p) * v"
  using assms by (induction p arbitrary: z) (simp_all add: algebra_simps)

lemma avgVoltage_uniform:
  assumes "p \<noteq> []" "\<And>i. i < length p \<Longrightarrow> voltage (p ! i) = v"
  shows "avgVoltage p = v"
proof -
  have "voltage c = v" if "c \<in> set p" for c
    using that assms(2) by (auto simp: in_set_conv_nth)
  then have "foldl (\<lambda>sum c. sum + voltage c) 0 p = real (length p) * v"
    using foldl_voltage_uniform [of p v 0] by simp
  then show ?thesis using assms(1) by (simp add: avgVoltage_def)
qed

lemma pack0_avg: "avgVoltage pack0 = 3.7"
proof (rule avgVoltage_uniform)
  show "pack0 \<noteq> []" using pack0_length by (auto simp: TOTAL_CELLS_def)
  show "voltage (pack0 ! i) = 3.7" if "i < length pack0" for i
    using that pack0_nth [of i] by (simp add: pack0_length)
qed

text \<open>
  Claim C10. A detection pass is idempotent: it resets every status and recomputes it from
  temperature, voltage and soh, which it leaves as they are, so a second pass right after
  the first yields the same cells, hence the same status for each cell, and the same banner.
\<close>

theorem detectAnomalies_idempotent:
  "detectAnomalies (fst (detectAnomalies p)) = detectAnomalies p
   \<and> map anomalyStatus (fst (detectAnomalies (fst (detectAnomalies p))))
       = map anomalyStatus (fst (detectAnomalies p))"
proof -
  let ?a = "avgVoltage p"
  let ?p' = "map (detectCell ?a) p"
  have avg: "avgVoltage ?p' = ?a"
    by (rule avgVoltage_detect)
  have again: "map (detectCell ?a) ?p' = ?p'"
    by (simp add: detectCell_idem)
  have "detectAnomalies ?p' = detectAnomalies p"
    by (simp only: detectAnomalies_def Let_def avg again)
  then show ?thesis by (simp only: fst_detectAnomalies)
qed

lemma pack55_voltage: "i < length pack55 \<Longrightarrow> voltage (pack55 ! i) = 3.7"
  using pack0_nth [of i] pack0_nth [of 13]
  by (auto simp: pack55_def pack0_length nth_list_update TOTAL_CELLS_def)

lemma pack55_avg: "avgVoltage pack55 = 3.7"
proof (rule avgVoltage_uniform)
  show "pack55 \<noteq> []" using pack0_length by (auto simp: pack55_def TOTAL_CELLS_def)
qed (rule pack55_voltage)

text \<open>
  Claim C1, as stated, fails at the boundary: the comparison with 55 is strict. In
  \<open>pack55\<close> cell 13 has temperature exactly 55, a healthy soh and the pack's average
  voltage, and the pass leaves it NORMAL, not CRITICAL.
\<close>

theorem detect_temperature_55_counterexample:
  "temperature (pack55 ! 13) = 55 \<and> soh (pack55 ! 13) = 90
   \<and> \<not> \<bar>voltage (pack55 ! 13) - avgVoltage pack55\<bar> / avgVoltage pack55 > 0.1
   \<and> anomalyStatus (fst (detectAnomalies pack55) ! 13) = NORMAL"
proof -
  have len: "13 < length pack55" by (simp add: pack55_def pack0_length TOTAL_CELLS_def)
  have c: "temperature (pack55 ! 13) = 55" "soh (pack55 ! 13) = 90" "voltage (pack55 ! 13) = 3.7"
    using pack0_nth [of 13] pack0_length by (simp_all add: pack55_def TOTAL_CELLS_def)
  show ?thesis
    unfolding nth_detectAnomalies [OF len] detectCell_status pack55_avg
    by (simp add: c CONFIG_defs voltageDeviationExceeds_def)
qed

text \<open>
  Claim C1, amended. A cell whose temperature is strictly above 55, for instance 56, ends
  the pass CRITICAL. A cell whose temperature is exactly 55 is not made CRITICAL by its
  temperature: unless its soh is below 70 it does not end the pass CRITICAL.
\<close>

theorem detect_temperature_strict:
  assumes "i < length p"
  shows "(temperature (p ! i) > 55 \<longrightarrow> anomalyStatus (fst (detectAnomalies p) ! i) = CRITICAL)
       \<and> (temperature (p ! i) = 56 \<longrightarrow> anomalyStatus (fst (detectAnomalies p) ! i) = CRITICAL)
       \<and> (temperature (p ! i) = 55 \<and> soh (p ! i) \<ge> 70 \<longrightarrow>
            anomalyStatus (fst (detectAnomalies p) ! i) \<noteq> CRITICAL)"
  unfolding nth_detectAnomalies [OF assms] detectCell_status
  by (simp add: CONFIG_defs)

theorem detect_temperature_strict_witness:
  "13 < length pack56 \<and> temperature (pack56 ! 13) = 56
   \<and> anomalyStatus (fst (detectAnomalies pack56) ! 13) = CRITICAL
   \<and> 13 < length pack55 \<and> temperature (pack55 ! 13) = 55 \<and> soh (pack55 ! 13) \<ge> 70
   \<and> anomalyStatus (fst (detectAnomalies pack55) ! 13) \<noteq> CRITICAL"
  using detect_temperature_strict [of 13 pack56] detect_temperature_strict [of 13 pack55]
    pack0_nth [of 13]
  by (simp add: pack56_def pack55_def pack0_length TOTAL_CELLS_def)

text \<open>
  Claim C3. With a non-zero pack average, the voltage rule turns a status into WARNING
  exactly when the relative deviation \<open>|voltage - average| / average\<close> exceeds 10% and the
  status is still NORMAL, so it never replaces CRITICAL; the soh rule, applied after it,
  sets CRITICAL whenever soh is below 70, whatever the status was. Over a whole pass a cell
  ends CRITICAL if soh is below 70 or the temperature above 55, else WARNING if the
  voltage deviates, else NORMAL. In particular a cell with soh 65 and temperature 25 ends
  the pass CRITICAL.
\<close>

theorem detect_voltage_then_soh:
  assumes "i < length p" and "avgVoltage p \<noteq> 0"
  shows "anomalyStatus (voltageRule (avgVoltage p) c) =
           (if \<bar>voltage c - avgVoltage p\<bar> / avgVoltage p > 0.1 \<and> anomalyStatus c = NORMAL
            then WARNING else anomalyStatus c)
       \<and> anomalyStatus (sohRule c) = (if soh c < 70 then CRITICAL else anomalyStatus c)
       \<and> anomalyStatus (fst (detectAnomalies p) ! i) =
           (if soh (p ! i) < 70 then CRITICAL
            else if temperature (p ! i) > 55 then CRITICAL
            else if \<bar>voltage (p ! i) - avgVoltage p\<bar> / avgVoltage p > 0.1 then WARNING
            else NORMAL)
       \<and> (soh (p ! i) = 65 \<and> temperature (p ! i) = 25 \<longrightarrow>
            anomalyStatus (fst (detectAnomalies p) ! i) = CRITICAL)"
proof -
  note dev = voltageDeviationExceeds_nonzero [OF assms(2)]
  have v: "anomalyStatus (voltageRule (avgVoltage p) c) =
           (if \<bar>voltage c - avgVoltage p\<bar> / avgVoltage p > 0.1 \<and> anomalyStatus c = NORMAL
            then WARNING else anomalyStatus c)"
    by (simp add: voltageRule_def dev)
  have s: "anomalyStatus (sohRule c) = (if soh c < 70 then CRITICAL else anomalyStatus c)"
    by (simp add: sohRule_def SOH_CRITICAL_def)
  have d: "anomalyStatus (fst (detectAnomalies p) ! i) =
           (if soh (p ! i) < 70 then CRITICAL
            else if temperature (p ! i) > 55 then CRITICAL
            else if \<bar>voltage (p ! i) - avgVoltage p\<bar> / avgVoltage p > 0.1 then WARNING
            else NORMAL)"
    unfolding nth_detectAnomalies [OF assms(1)] detectCell_status dev
    by (simp add: CONFIG_defs)
  show ?thesis unfolding d using v s by simp
qed

lemma packWeak_voltage: "i < length packWeak \<Longrightarrow> voltage (packWeak ! i) = 3.7"
  using pack0_nth [of i] pack0_nth [of 13]
  by (auto simp: packWeak_def pack0_length nth_list_update TOTAL_CELLS_def)

lemma packWeak_avg: "avgVoltage packWeak = 3.7"
proof (rule avgVoltage_uniform)
  show "packWeak \<noteq> []" using pack0_length by (auto simp: packWeak_def TOTAL_CELLS_def)
qed (rule packWeak_voltage)

lemma foldl_voltage_sum:
  "foldl (\<lambda>sum c. sum + voltage c) z cs = z + sum_list (map voltage cs)"
  by (induction cs arbitrary: z) simp_all

lemma sum_voltage_update:
  "i < length cs \<Longrightarrow>
     sum_list (map voltage (cs[i := x])) = sum_list (map voltage cs) - voltage (cs ! i) + voltage x"
proof (induction cs arbitrary: i)
  case Nil
  then show ?case by simp
next
  case (Cons c cs)
  then show ?case by (cases i) simp_all
qed

lemma packVolt_avg: "avgVoltage packVolt = 3.70578125"
proof -
  have "sum_list (map voltage pack0) = 96 * 3.7"
    using pack0_avg pack0_length by (simp add: avgVoltage_def foldl_voltage_sum TOTAL_CELLS_def)
  moreover have "voltage (pack0 ! 48) = 3.7" using pack0_nth [of 48] by (simp add: TOTAL_CELLS_def)
  ultimately have "sum_list (map voltage packVolt) = 96 * 3.7 - 3.7 + 4.255"
    unfolding packVolt_def using pack0_length
    by (simp add: sum_voltage_update TOTAL_CELLS_def)
  then show ?thesis
    using pack0_length by (simp add: avgVoltage_def foldl_voltage_sum packVolt_def TOTAL_CELLS_def)
qed

theorem detect_voltage_then_soh_witness:
  "13 < length packWeak \<and> avgVoltage packWeak \<noteq> 0
   \<and> soh (packWeak ! 13) = 65 \<and> temperature (packWeak ! 13) = 25
   \<and> anomalyStatus (fst (detectAnomalies packWeak) ! 13) = CRITICAL
   \<and> anomalyStatus (fst (detectAnomalies packWeak) ! 14) = NORMAL
   \<and> 48 < length packVolt \<and> avgVoltage packVolt \<noteq> 0
   \<and> anomalyStatus (fst (detectAnomalies packVolt) ! 48) = WARNING"
proof -
  have len: "13 < length packWeak" "14 < length packWeak"
    by (simp_all add: packWeak_def pack0_length TOTAL_CELLS_def)
  have avg0: "avgVoltage packWeak \<noteq> 0" by (simp add: packWeak_avg)
  have c13: "soh (packWeak ! 13) = 65" "temperature (packWeak ! 13) = 25"
    using pack0_length by (simp_all add: packWeak_def TOTAL_CELLS_def)
  have c14: "soh (packWeak ! 14) = 90" "temperature (packWeak ! 14) = 30" "voltage (packWeak ! 14) = 3.7"
    using pack0_nth [of 14] by (simp_all add: packWeak_def TOTAL_CELLS_def)
  have weak: "anomalyStatus (fst (detectAnomalies packWeak) ! 13) = CRITICAL"
    "anomalyStatus (fst (detectAnomalies packWeak) ! 14) = NORMAL"
    using detect_voltage_then_soh [OF len(1) avg0] detect_voltage_then_soh [OF len(2) avg0]
    by (simp_all add: c13 c14 packWeak_avg)
  have lv: "48 < length packVolt" by (simp add: packVolt_def pack0_length TOTAL_CELLS_def)
  have av: "avgVoltage packVolt \<noteq> 0" by (simp add: packVolt_avg)
  have c48: "soh (packVolt ! 48) = 90" "temperature (packVolt ! 48) = 30" "voltage (packVolt ! 48) = 4.255"
    using pack0_nth [of 48] pack0_length by (simp_all add: packVolt_def TOTAL_CELLS_def)
  have volt: "anomalyStatus (fst (detectAnomalies packVolt) ! 48) = WARNING"
    using detect_voltage_then_soh [OF lv av]
    by (simp add: c48 packVolt_avg)
  show ?thesis using len(1) avg0 c13 weak lv av volt by simp
qed

section \<open>Thermal clusters and the banner\<close>

lemma isThermalCluster_grid:
  assumes "length p = TOTAL_CELLS" "i < TOTAL_CELLS"
  shows "isThermalCluster p i =
           Inr (temperature (p ! i) \<ge> ELEVATED_MAX
                \<and> 2 \<le> length (filter (\<lambda>n. temperature (p ! n) \<ge> ELEVATED_MAX) (getNeighbors i)))"
proof -
  have "\<not> list_ex (\<lambda>n. n \<ge> length p) (getNeighbors i)"
    using getNeighbors_in_range [OF assms(2)] assms(1) by (fastforce simp: list_ex_iff)
  then show ?thesis
    using assms by (auto simp: isThermalCluster_def Let_def)
qed

lemma clusterFilter_total:
  assumes "\<And>i. i \<in> set js \<Longrightarrow> \<exists>b. isThermalCluster p i = Inr b"
  shows "clusterFilter p js = Inr (map (\<lambda>i. p ! i) (filter (\<lambda>i. isThermalCluster p i = Inr True) js))"
  using assms
proof (induction js)
  case Nil
  then show ?case by simp
next
  case (Cons i js)
  from Cons.prems obtain b where b: "isThermalCluster p i = Inr b" by auto
  have "clusterFilter p js = Inr (map (\<lambda>i. p ! i) (filter (\<lambda>i. isThermalCluster p i = Inr True) js))"
    using Cons by simp
  then show ?case using b by simp
qed

lemma clusterFilter_grid:
  assumes "length p = TOTAL_CELLS"
  shows "clusterFilter p [0..<length p] =
           Inr (map (\<lambda>i. p ! i) (filter (\<lambda>i. isThermalCluster p i = Inr True) [0..<length p]))"
proof (rule clusterFilter_total)
  fix i assume "i \<in> set [0..<length p]"
  then have "i < TOTAL_CELLS" using assms by simp
  then show "\<exists>b. isThermalCluster p i = Inr b"
    using isThermalCluster_grid [OF assms] by blast
qed

lemma updateAnomalyStatus_grid:
  assumes "length p = TOTAL_CELLS"
  shows "updateAnomalyStatus p =
           Inr (if list_ex (\<lambda>c. anomalyStatus c = CRITICAL) p
                then (if 3 \<le> length (filter (\<lambda>i. isThermalCluster p i = Inr True) [0..<length p])
                      then ''THERMAL CLUSTER DETECTED'' else ''CRITICAL'')
                else if list_ex (\<lambda>c. anomalyStatus c = WARNING) p then ''WARNING''
                else ''NORMAL'')"
proof -
  have ex: "(0 < length (filter P p)) = list_ex P p" for P :: "cell \<Rightarrow> bool"
    by (auto simp: list_ex_iff filter_empty_conv)
  show ?thesis
    unfolding updateAnomalyStatus_def Let_def clusterFilter_grid [OF assms] ex
    by simp
qed

text \<open>
  Claim C2, as stated, fails: the threshold of \<open>isThermalCluster\<close> is \<open>ELEVATED_MAX\<close>,
  which is 45, not 40. In \<open>pack42\<close> every cell has temperature 42: cell 13 is at least at
  40 and so are all eight of its neighbours, yet it is no cluster member.
\<close>

theorem isThermalCluster_40_counterexample:
  "temperature (pack42 ! 13) = 42
   \<and> getNeighbors 13 = [0, 1, 2, 12, 14, 24, 25, 26]
   \<and> temperature (pack42 ! 0) = 42 \<and> temperature (pack42 ! 1) = 42
   \<and> temperature (pack42 ! 2) = 42
   \<and> isThermalCluster pack42 13 = Inr False"
proof -
  have t: "temperature (pack42 ! i) = 42" if "i < 96" for i
    using that by (simp add: pack42_def pack0_length TOTAL_CELLS_def)
  have nb: "getNeighbors 13 = [0, 1, 2, 12, 14, 24, 25, 26]"
    by (simp add: getNeighbors_def CONFIG_defs)
  have "isThermalCluster pack42 13 = Inr False"
    by (simp add: isThermalCluster_def t pack42_def pack0_length CONFIG_defs)
  then show ?thesis by (simp add: nb t)
qed

text \<open>
  Claim C2, amended. On a pack of 96 cells \<open>isThermalCluster\<close> returns true if and only if
  the cell at the index has a temperature of at least 45 and at least 2 of its grid
  neighbours have a temperature of at least 45; it raises no error there; and a cell whose
  temperature is below 40 is never a cluster member, whatever its neighbours are.
\<close>

theorem isThermalCluster_threshold:
  assumes "length p = TOTAL_CELLS" "i < TOTAL_CELLS"
  shows "(isThermalCluster p i = Inr True \<or> isThermalCluster p i = Inr False)
         \<and> (isThermalCluster p i = Inr True \<longleftrightarrow>
              temperature (p ! i) \<ge> 45
              \<and> 2 \<le> length (filter (\<lambda>n. temperature (p ! n) \<ge> 45) (getNeighbors i)))
         \<and> (temperature (p ! i) < 40 \<longrightarrow> isThermalCluster p i = Inr False)"
  using isThermalCluster_grid [OF assms] by (auto simp: ELEVATED_MAX_def)

theorem isThermalCluster_threshold_witness:
  "length pack50 = TOTAL_CELLS \<and> 13 < TOTAL_CELLS \<and> isThermalCluster pack50 13 = Inr True
   \<and> length pack42 = TOTAL_CELLS \<and> isThermalCluster pack42 13 = Inr False"
proof -
  have t: "temperature (pack50 ! i) = 50" if "i < 96" for i
    using that by (simp add: pack50_def pack0_length TOTAL_CELLS_def)
  have t42: "temperature (pack42 ! i) = 42" if "i < 96" for i
    using that by (simp add: pack42_def pack0_length TOTAL_CELLS_def)
  have nb: "getNeighbors 13 = [0, 1, 2, 12, 14, 24, 25, 26]"
    by (simp add: getNeighbors_def CONFIG_defs)
  have len: "length pack50 = TOTAL_CELLS" "length pack42 = TOTAL_CELLS" and i: "13 < TOTAL_CELLS"
    by (simp_all add: pack50_def pack42_def pack0_length TOTAL_CELLS_def)
  show ?thesis
    using isThermalCluster_threshold [OF len(1) i] isThermalCluster_threshold [OF len(2) i]
    by (auto simp: len i nb t t42)
qed

text \<open>
  Claim C5. On a pack of 96 cells the banner is THERMAL CLUSTER DETECTED exactly when some
  cell is CRITICAL and at least 3 indices of the pack are cluster members according to
  \<open>isThermalCluster\<close>; it is CRITICAL when some cell is CRITICAL and fewer than 3 are
  cluster members; WARNING when no cell is CRITICAL and some cell is WARNING; and NORMAL
  otherwise.
\<close>

theorem updateAnomalyStatus_banner:
  assumes "length p = TOTAL_CELLS"
  shows "updateAnomalyStatus p =
           Inr (if list_ex (\<lambda>c. anomalyStatus c = CRITICAL) p
                then (if 3 \<le> length (filter (\<lambda>i. isThermalCluster p i = Inr True) [0..<length p])
                      then ''THERMAL CLUSTER DETECTED'' else ''CRITICAL'')
                else if list_ex (\<lambda>c. anomalyStatus c = WARNING) p then ''WARNING''
                else ''NORMAL'')
         \<and> (updateAnomalyStatus p = Inr ''THERMAL CLUSTER DETECTED'' \<longleftrightarrow>
              list_ex (\<lambda>c. anomalyStatus c = CRITICAL) p
              \<and> 3 \<le> length (filter (\<lambda>i. isThermalCluster p i = Inr True) [0..<length p]))"
  unfolding updateAnomalyStatus_grid [OF assms] by simp

lemma packWeak_nth:
  "i < TOTAL_CELLS \<Longrightarrow> temperature (packWeak ! i) \<le> 30"
  using pack0_nth [of i] pack0_nth [of 13]
  by (auto simp: packWeak_def pack0_length nth_list_update TOTAL_CELLS_def)

theorem updateAnomalyStatus_banner_witness:
  "length (fst (detectAnomalies packWeak)) = TOTAL_CELLS
   \<and> updateAnomalyStatus (fst (detectAnomalies packWeak)) = Inr ''CRITICAL''
   \<and> length (fst (detectAnomalies pack56all)) = TOTAL_CELLS
   \<and> updateAnomalyStatus (fst (detectAnomalies pack56all)) = Inr ''THERMAL CLUSTER DETECTED''"
proof -
  let ?p = "fst (detectAnomalies packWeak)"
  have l0: "length packWeak = TOTAL_CELLS" by (simp add: packWeak_def pack0_length)
  have l: "length ?p = TOTAL_CELLS" by (simp add: length_detectAnomalies l0)
  have c13: "anomalyStatus (?p ! 13) = CRITICAL"
    using pack0_length
    by (simp add: nth_detectAnomalies l0 detectCell_status packWeak_def TOTAL_CELLS_def SOH_CRITICAL_def)
  have "?p ! 13 \<in> set ?p" using l by (simp add: TOTAL_CELLS_def)
  then have crit: "list_ex (\<lambda>c. anomalyStatus c = CRITICAL) ?p"
    using c13 unfolding list_ex_iff by blast
  have cool: "isThermalCluster ?p i \<noteq> Inr True" if "i < length ?p" for i
  proof -
    have "i < TOTAL_CELLS" using that l by simp
    then have "temperature (?p ! i) \<le> 30"
      using packWeak_nth [of i] by (simp add: nth_detectAnomalies l0 detectCell_fields)
    then show ?thesis using that by (simp add: isThermalCluster_def ELEVATED_MAX_def)
  qed
  have none: "filter (\<lambda>i. isThermalCluster ?p i = Inr True) [0..<length ?p] = []"
    using cool by (simp add: filter_empty_conv)
  have weak: "updateAnomalyStatus ?p = Inr ''CRITICAL''"
    using updateAnomalyStatus_banner [OF l] crit unfolding none by simp
  let ?q = "fst (detectAnomalies pack56all)"
  have m0: "length pack56all = TOTAL_CELLS" by (simp add: pack56all_def pack0_length)
  have m: "length ?q = TOTAL_CELLS" by (simp add: length_detectAnomalies m0)
  have tq: "temperature (?q ! i) = 56" if "i < TOTAL_CELLS" for i
    using that by (simp add: nth_detectAnomalies m0 detectCell_fields pack56all_def pack0_length)
  have sq: "anomalyStatus (?q ! 0) = CRITICAL"
    using pack0_nth [of 0]
    by (simp add: nth_detectAnomalies m0 detectCell_status pack56all_def pack0_length
        TOTAL_CELLS_def SOH_CRITICAL_def CRITICAL_TEMP_def)
  have "?q ! 0 \<in> set ?q" using m by (simp add: TOTAL_CELLS_def)
  then have critq: "list_ex (\<lambda>c. anomalyStatus c = CRITICAL) ?q"
    using sq unfolding list_ex_iff by blast
  have hot: "isThermalCluster ?q i = Inr True" if i: "i < TOTAL_CELLS" for i
  proof -
    have "filter (\<lambda>n. temperature (?q ! n) \<ge> ELEVATED_MAX) (getNeighbors i) = getNeighbors i"
      using getNeighbors_in_range [OF i] tq by (simp add: filter_id_conv ELEVATED_MAX_def)
    then show ?thesis
      using isThermalCluster_grid [OF m i] getNeighbors_at_least_3 [OF i] tq [OF i]
      by (simp add: ELEVATED_MAX_def)
  qed
  have "filter (\<lambda>i. isThermalCluster ?q i = Inr True) [0..<length ?q] = [0..<length ?q]"
    using hot m by (simp add: filter_id_conv)
  then have all: "length (filter (\<lambda>i. isThermalCluster ?q i = Inr True) [0..<length ?q]) = 96"
    using m by (simp add: TOTAL_CELLS_def)
  have "updateAnomalyStatus ?q = Inr ''THERMAL CLUSTER DETECTED''"
    using updateAnomalyStatus_banner [OF m] critq unfolding all by simp
  then show ?thesis using weak l m by simp
qed

section \<open>The periodic update and the temperature history\<close>

lemma detectAnomalies_grid:
  assumes "length p = TOTAL_CELLS"
  shows "\<exists>banner. detectAnomalies p = (map (detectCell (avgVoltage p)) p, Inr banner)"
proof -
  have "length (map (detectCell (avgVoltage p)) p) = TOTAL_CELLS" using assms by simp
  from updateAnomalyStatus_grid [OF this] show ?thesis
    by (simp add: detectAnomalies_def Let_def)
qed

lemma tick_grid:
  assumes "length (batteryData s) = TOTAL_CELLS"
  shows "tick rs now s =
           Inr (s\<lparr>batteryData := fst (detectAnomalies (updateCells rs (batteryData s))),
                  tempHistory := updateMetrics now (fst (detectAnomalies (updateCells rs (batteryData s))))
                                   (tempHistory s)\<rparr>)"
proof -
  let ?u = "updateCells rs (batteryData s)"
  have lu: "length ?u = TOTAL_CELLS" using assms by (simp add: length_updateCells)
  from detectAnomalies_grid [OF lu] obtain banner
    where d: "detectAnomalies ?u = (map (detectCell (avgVoltage ?u)) ?u, Inr banner)" by blast
  have ld: "length (map (detectCell (avgVoltage ?u)) ?u) = TOTAL_CELLS" using lu by simp
  show ?thesis
    unfolding tick_def d using clusterFilter_grid [OF ld]
    by (simp add: updateBatteryGrid_def)
qed

lemma updateMetrics_push:
  "updateMetrics now cells h =
     (if length h \<ge> 20 then tl (h @ [tempSample now cells]) else h @ [tempSample now cells])"
  by (simp add: updateMetrics_def Let_def)

lemma time_tempSample: "time (tempSample now cells) = now"
  by (simp add: tempSample_def Let_def)

lemma updateMetrics_drop:
  assumes "length h \<le> 20"
  shows "updateMetrics now cells h = drop (length h + 1 - 20) (h @ [tempSample now cells])"
proof (cases "length h = 20")
  case True
  then show ?thesis by (cases h) (simp_all add: updateMetrics_push)
next
  case False
  with assms have "length h + 1 - 20 = 0" by simp
  then show ?thesis using False assms by (simp add: updateMetrics_push)
qed

lemma length_updateMetrics: "length h \<le> 20 \<Longrightarrow> length (updateMetrics now cells h) \<le> 20"
  by (simp add: updateMetrics_push)

lemma runTicks_history:
  assumes "length (batteryData s) = TOTAL_CELLS" and "length (tempHistory s) \<le> 20"
  shows "\<exists>s'. runTicks ins s = Inr s'
           \<and> length (batteryData s') = TOTAL_CELLS
           \<and> length (tickSamples ins s) = length ins
           \<and> map time (tickSamples ins s) = map snd ins
           \<and> tempHistory s' =
               drop (length (tempHistory s) + length ins - 20) (tempHistory s @ tickSamples ins s)"
  using assms
proof (induction ins arbitrary: s)
  case Nil
  then show ?case by simp
next
  case (Cons a ins)
  obtain rs now where a: "a = (rs, now)" by (cases a)
  let ?cells = "fst (detectAnomalies (updateCells rs (batteryData s)))"
  let ?smp = "tempSample now ?cells"
  let ?h = "tempHistory s"
  let ?s1 = "s\<lparr>batteryData := ?cells, tempHistory := updateMetrics now ?cells ?h\<rparr>"
  have t: "tick rs now s = Inr ?s1" using tick_grid [OF Cons.prems(1)] .
  have l1: "length (batteryData ?s1) = TOTAL_CELLS"
    using Cons.prems(1) by (simp add: length_detectAnomalies length_updateCells)
  have h1: "tempHistory ?s1 = drop (length ?h + 1 - 20) (?h @ [?smp])"
    using updateMetrics_drop [OF Cons.prems(2)] by simp
  have l2: "length (tempHistory ?s1) \<le> 20"
    using length_updateMetrics [OF Cons.prems(2)] by simp
  from Cons.IH [OF l1 l2] obtain s' where s':
    "runTicks ins ?s1 = Inr s'" "length (batteryData s') = TOTAL_CELLS"
    "length (tickSamples ins ?s1) = length ins" "map time (tickSamples ins ?s1) = map snd ins"
    "tempHistory s' =
       drop (length (tempHistory ?s1) + length ins - 20) (tempHistory ?s1 @ tickSamples ins ?s1)"
    by blast
  let ?T = "tickSamples ins ?s1"
  have ts: "tickSamples (a # ins) s = ?smp # ?T"
    by (simp add: a t)
  have d: "length ?h + 1 - 20 \<le> length (?h @ [?smp])" by simp
  have "tempHistory s' = drop (length (tempHistory ?s1) + length ins - 20)
                           (drop (length ?h + 1 - 20) (?h @ [?smp]) @ ?T)"
    using s'(5) h1 by simp
  also have "\<dots> = drop (length (tempHistory ?s1) + length ins - 20)
                     (drop (length ?h + 1 - 20) (?h @ ?smp # ?T))"
    using d by simp
  also have "\<dots> = drop (length (tempHistory ?s1) + length ins - 20 + (length ?h + 1 - 20))
                     (?h @ ?smp # ?T)"
    by (simp only: drop_drop)
  also have "length (tempHistory ?s1) + length ins - 20 + (length ?h + 1 - 20)
               = length ?h + length (a # ins) - 20"
    using Cons.prems(2) unfolding h1 by auto
  finally have hist: "tempHistory s' = drop (length ?h + length (a # ins) - 20) (?h @ tickSamples (a # ins) s)"
    unfolding ts .
  have "runTicks (a # ins) s = Inr s'" using s'(1) by (simp add: a t)
  moreover have "length (tickSamples (a # ins) s) = length (a # ins)"
    unfolding ts using s'(3) by simp
  moreover have "map time (tickSamples (a # ins) s) = map snd (a # ins)"
    unfolding ts using s'(4) by (simp add: a time_tempSample)
  ultimately show ?case using s'(2) hist by blast
qed

lemma withinBounds_detectCell: "withinBounds (detectCell a c) = withinBounds c"
  by (simp add: withinBounds_def detectCell_fields)

text \<open>
  Claim C4. A cell built by the constructor from draws in \<open>[0, 1)\<close> has its temperature in
  \<open>[20, 60]\<close>, its voltage in \<open>[3.0, 4.2]\<close> and its soc in \<open>[0, 100]\<close>, and so has every cell
  of a generated pack. The same bounds hold after \<open>update\<close>, from any cell and with any
  perturbation, hence for every cell of the pack after each tick.
\<close>

theorem bounds_after_create_and_update:
  assumes "\<forall>k. 0 \<le> rs k \<and> rs k < 1"
  shows "withinBounds (BatteryCell rs i r c)
       \<and> list_all withinBounds (generateBatteryData rs)
       \<and> withinBounds (update rs' c')
       \<and> list_all withinBounds (updateCells rs' cells)
       \<and> (length (batteryData s) = TOTAL_CELLS \<longrightarrow>
            (\<exists>s'. tick rs' now s = Inr s' \<and> list_all withinBounds (batteryData s')))"
proof -
  have create: "withinBounds (BatteryCell ds j r' c'')" if "\<And>k. 0 \<le> ds k \<and> ds k \<le> 1" for ds j r' c''
    using BatteryCell_bounds [of ds j r' c''] that by (simp add: withinBounds_def)
  have rs: "\<And>k. 0 \<le> rs k \<and> rs k \<le> 1" using assms by (simp add: less_imp_le)
  have gen: "list_all withinBounds (generateBatteryData rs)"
    unfolding list_all_length length_generateBatteryData
  proof (intro allI impI)
    fix n assume "n < TOTAL_CELLS"
    then show "withinBounds (generateBatteryData rs ! n)"
      unfolding nth_generateBatteryData [of n rs, simplified] using rs
      by (simp add: nth_generateBatteryData create)
  qed
  have upd: "withinBounds (update ds x)" for ds x
    using update_bounds [of ds x] by (simp add: withinBounds_def)
  have cells: "list_all withinBounds (updateCells ds xs)" for ds xs
    by (simp add: list_all_length length_updateCells nth_updateCells upd)
  have tk: "\<exists>s'. tick rs' now s = Inr s' \<and> list_all withinBounds (batteryData s')"
    if "length (batteryData s) = TOTAL_CELLS"
  proof -
    have "list_all withinBounds (fst (detectAnomalies (updateCells rs' (batteryData s))))"
      using cells [of rs' "batteryData s"]
      by (simp add: fst_detectAnomalies list_all_iff withinBounds_detectCell)
    then show ?thesis using tick_grid [OF that, of rs' now] by simp
  qed
  have c0: "withinBounds (BatteryCell rs i r c)"
    by (rule create) (rule rs)
  show ?thesis using c0 gen upd cells tk by blast
qed

theorem bounds_after_create_and_update_witness:
  "(\<forall>k::nat. (0::real) \<le> 1 / 2 \<and> (1::real) / 2 < 1)
   \<and> temperature (BatteryCell (\<lambda>k. 1 / 2) ''CELL-001'' 0 0) = 30
   \<and> withinBounds (BatteryCell (\<lambda>k. 1 / 2) ''CELL-001'' 0 0)
   \<and> temperature (update (\<lambda>k. 1 / 2) ((pack0 ! 0)\<lparr>temperature := 64\<rparr>)) = 60
   \<and> withinBounds (update (\<lambda>k. 1 / 2) ((pack0 ! 0)\<lparr>temperature := 64\<rparr>))"
  using bounds_after_create_and_update [of "\<lambda>k. 1 / 2" "''CELL-001''" 0 0 "\<lambda>k. 1 / 2"
      "(pack0 ! 0)\<lparr>temperature := 64\<rparr>"]
  by (simp add: BatteryCell_def randomInRange_def update_def)

text \<open>
  Claim C7. Every call of \<open>updateMetrics\<close> keeps a history of at most 20 entries within 20
  entries. A tick appends exactly one sample, the one of the pack it leaves, and drops the
  oldest entry when there were 20 already. So after any number of ticks the history is the
  old history followed by the samples of these ticks, in their order, cut down to its last
  20 entries; from an empty history, 25 ticks leave exactly the samples of the last 20
  ticks, oldest first.
\<close>

theorem tempHistory_window:
  assumes "length (batteryData s) = TOTAL_CELLS" and "length (tempHistory s) \<le> 20"
  shows "length (updateMetrics now cells (tempHistory s)) \<le> 20
       \<and> (\<exists>s1. tick rs now s = Inr s1
            \<and> tempHistory s1 =
                (if length (tempHistory s) < 20 then tempHistory s @ [tempSample now (batteryData s1)]
                 else tl (tempHistory s) @ [tempSample now (batteryData s1)]))
       \<and> (\<exists>s'. runTicks ins s = Inr s'
            \<and> length (tempHistory s') \<le> 20
            \<and> length (tickSamples ins s) = length ins
            \<and> map time (tickSamples ins s) = map snd ins
            \<and> tempHistory s' =
                drop (length (tempHistory s) + length ins - 20) (tempHistory s @ tickSamples ins s)
            \<and> (tempHistory s = [] \<and> length ins = 25 \<longrightarrow>
                 length (tempHistory s') = 20 \<and> tempHistory s' = drop 5 (tickSamples ins s)))"
proof -
  let ?h = "tempHistory s"
  let ?cells = "fst (detectAnomalies (updateCells rs (batteryData s)))"
  have one: "\<exists>s1. tick rs now s = Inr s1
            \<and> tempHistory s1 =
                (if length ?h < 20 then ?h @ [tempSample now (batteryData s1)]
                 else tl ?h @ [tempSample now (batteryData s1)])"
  proof (cases "length ?h < 20")
    case True
    then show ?thesis using tick_grid [OF assms(1), of rs now] by (simp add: updateMetrics_push)
  next
    case False
    then have "?h \<noteq> []" "length ?h \<ge> 20" by auto
    then show ?thesis using tick_grid [OF assms(1), of rs now] by (simp add: updateMetrics_push)
  qed
  from runTicks_history [OF assms, of ins] obtain s' where s':
    "runTicks ins s = Inr s'" "length (tickSamples ins s) = length ins"
    "map time (tickSamples ins s) = map snd ins"
    "tempHistory s' = drop (length ?h + length ins - 20) (?h @ tickSamples ins s)"
    by blast
  have le: "length (tempHistory s') \<le> 20"
    unfolding s'(4) using assms(2) s'(2) by simp
  have l25: "length (tempHistory s') = 20 \<and> tempHistory s' = drop 5 (tickSamples ins s)"
    if "?h = []" "length ins = 25"
    unfolding s'(4) using that s'(2) by simp
  have any: "length (updateMetrics now cells ?h) \<le> 20"
    using assms(2) by (rule length_updateMetrics)
  show ?thesis using any one s' le l25 by blast
qed

lemma drop_ticks25: "drop 5 (map snd ticks25) = map String_nat [5..<25]"
  by (simp add: ticks25_def drop_map comp_def)

theorem tempHistory_window_witness:
  "length (batteryData state0) = TOTAL_CELLS \<and> length (tempHistory state0) \<le> 20
   \<and> (\<exists>s'. runTicks ticks25 state0 = Inr s' \<and> length (tempHistory s') = 20
          \<and> map time (tempHistory s') = map String_nat [5..<25])"
proof -
  have l: "length (batteryData state0) = TOTAL_CELLS" and h: "length (tempHistory state0) \<le> 20"
    and e: "tempHistory state0 = []" and n: "length ticks25 = 25"
    by (simp_all add: state0_def pack0_length ticks25_def)
  from tempHistory_window [OF l h, of "[]" "[]" "\<lambda>k. 1 / 2" ticks25] e n obtain s' where s':
    "runTicks ticks25 state0 = Inr s'" "map time (tickSamples ticks25 state0) = map snd ticks25"
    "length (tempHistory s') = 20" "tempHistory s' = drop 5 (tickSamples ticks25 state0)"
    by blast
  have "map time (tempHistory s') = drop 5 (map time (tickSamples ticks25 state0))"
    unfolding s'(4) by (rule drop_map [symmetric])
  then have "map time (tempHistory s') = drop 5 (map snd ticks25)"
    unfolding s'(2) .
  then show ?thesis using l h s'(1,3) drop_ticks25 by simp
qed

section \<open>Fault injection\<close>

lemma floor_index:
  assumes "0 \<le> r" "r < 1" "0 < n"
  shows "0 \<le> \<lfloor>r * real n\<rfloor> \<and> \<lfloor>r * real n\<rfloor> < int n"
proof -
  have "0 \<le> r * real n" using assms by simp
  moreover have "r * real n < 1 * real n"
    using assms by (intro mult_strict_right_mono) simp_all
  ultimately show ?thesis by (simp add: floor_less_iff)
qed

lemma setTemperature_in_range:
  "i < length bd \<Longrightarrow> setTemperature bd (int i) t = Inr (bd[i := (bd ! i)\<lparr>temperature := t\<rparr>])"
  by (simp add: setTemperature_def)

lemma setVoltage_in_range:
  "i < length bd \<Longrightarrow> setVoltage bd (int i) v = Inr (bd[i := (bd ! i)\<lparr>voltage := v\<rparr>])"
  by (simp add: setVoltage_def)

lemma heatNeighbors_in_range:
  assumes "\<And>n. n \<in> set ns \<Longrightarrow> n < length bd" and "distinct ns"
  shows "\<exists>bd'. heatNeighbors rs k ns bd = Inr bd' \<and> length bd' = length bd
           \<and> (\<forall>j<length bd. j \<notin> set ns \<longrightarrow> bd' ! j = bd ! j)
           \<and> (\<forall>m<length ns. bd' ! (ns ! m) =
                  (bd ! (ns ! m))\<lparr>temperature := ELEVATED_MAX + rs (k + m) * 5\<rparr>)"
  using assms
proof (induction ns arbitrary: k bd)
  case Nil
  then show ?case by simp
next
  case (Cons n ns)
  let ?bd1 = "bd[n := (bd ! n)\<lparr>temperature := ELEVATED_MAX + rs k * 5\<rparr>]"
  have n: "n < length bd" and nn: "n \<notin> set ns" and dn: "distinct ns"
    using Cons.prems by simp_all
  have r1: "\<And>x. x \<in> set ns \<Longrightarrow> x < length ?bd1" using Cons.prems(1) by simp
  from Cons.IH [OF r1 dn, of "Suc k"] obtain bd' where bd':
    "heatNeighbors rs (Suc k) ns ?bd1 = Inr bd'" "length bd' = length ?bd1"
    "\<forall>j<length ?bd1. j \<notin> set ns \<longrightarrow> bd' ! j = ?bd1 ! j"
    "\<forall>m<length ns. bd' ! (ns ! m) = (?bd1 ! (ns ! m))\<lparr>temperature := ELEVATED_MAX + rs (Suc k + m) * 5\<rparr>"
    by blast
  have run: "heatNeighbors rs k (n # ns) bd = Inr bd'"
    using bd'(1) by (simp add: setTemperature_in_range [OF n])
  have len: "length bd' = length bd" using bd'(2) by simp
  have others: "\<forall>j<length bd. j \<notin> set (n # ns) \<longrightarrow> bd' ! j = bd ! j"
    using bd'(3) by simp
  have hit: "bd' ! ((n # ns) ! m) = (bd ! ((n # ns) ! m))\<lparr>temperature := ELEVATED_MAX + rs (k + m) * 5\<rparr>"
    if m: "m < length (n # ns)" for m
  proof (cases m)
    case 0
    then show ?thesis using bd'(3) n nn by simp
  next
    case (Suc m')
    then have m': "m' < length ns" using m by simp
    then have "ns ! m' \<noteq> n" using nn by (metis nth_mem)
    then show ?thesis using bd'(4) m' Suc by simp
  qed
  show ?case using run len others hit by blast
qed

lemma simulateFault_cluster:
  assumes len: "length bd = TOTAL_CELLS" and idx: "idx < TOTAL_CELLS"
  defines "ns \<equiv> take 3 (getNeighbors idx)"
  shows "\<exists>bd'. (case setTemperature bd (int idx) (ELEVATED_MAX + rs 2 * 5) of
                   Inl e \<Rightarrow> Inl e
                 | Inr bd1 \<Rightarrow> heatNeighbors rs 3 ns bd1) = Inr bd'
           \<and> length bd' = length bd
           \<and> bd' ! idx = (bd ! idx)\<lparr>temperature := ELEVATED_MAX + rs 2 * 5\<rparr>
           \<and> (\<forall>m<length ns. bd' ! (ns ! m) =
                  (bd ! (ns ! m))\<lparr>temperature := ELEVATED_MAX + rs (3 + m) * 5\<rparr>)
           \<and> (\<forall>j<length bd. j \<noteq> idx \<and> j \<notin> set ns \<longrightarrow> bd' ! j = bd ! j)"
proof -
  let ?bd1 = "bd[idx := (bd ! idx)\<lparr>temperature := ELEVATED_MAX + rs 2 * 5\<rparr>]"
  have i: "idx < length bd" using len idx by simp
  have sub: "set ns \<subseteq> set (getNeighbors idx)" unfolding ns_def by (rule set_take_subset)
  have rng: "\<And>n. n \<in> set ns \<Longrightarrow> n < length ?bd1"
    using sub getNeighbors_in_range [OF idx] len by auto
  have self: "idx \<notin> set ns"
    using sub getNeighbors_not_self [OF idx] by auto
  have dist: "distinct ns"
    unfolding ns_def using getNeighbors_distinct [OF idx] by (rule distinct_take)
  from heatNeighbors_in_range [OF rng dist, of rs 3] obtain bd' where bd':
    "heatNeighbors rs 3 ns ?bd1 = Inr bd'" "length bd' = length ?bd1"
    "\<forall>j<length ?bd1. j \<notin> set ns \<longrightarrow> bd' ! j = ?bd1 ! j"
    "\<forall>m<length ns. bd' ! (ns ! m) = (?bd1 ! (ns ! m))\<lparr>temperature := ELEVATED_MAX + rs (3 + m) * 5\<rparr>"
    by blast
  have run: "(case setTemperature bd (int idx) (ELEVATED_MAX + rs 2 * 5) of
                Inl e \<Rightarrow> Inl e | Inr bd1 \<Rightarrow> heatNeighbors rs 3 ns bd1) = Inr bd'"
    using bd'(1) by (simp add: setTemperature_in_range [OF i])
  have centre: "bd' ! idx = (bd ! idx)\<lparr>temperature := ELEVATED_MAX + rs 2 * 5\<rparr>"
    using bd'(3) self i by simp
  have nbrs: "bd' ! (ns ! m) = (bd ! (ns ! m))\<lparr>temperature := ELEVATED_MAX + rs (3 + m) * 5\<rparr>"
    if "m < length ns" for m
  proof -
    have "ns ! m \<noteq> idx" using self that by (metis nth_mem)
    then show ?thesis using bd'(4) that by simp
  qed
  have rest: "\<forall>j<length bd. j \<noteq> idx \<and> j \<notin> set ns \<longrightarrow> bd' ! j = bd ! j"
    using bd'(3) by simp
  show ?thesis using run bd'(2) centre nbrs rest by auto
qed

text \<open>
  Claim C6. On a pack of 96 cells and with draws in \<open>[0, 1)\<close>, \<open>simulateFault\<close> runs exactly
  one of three branches, chosen by its first draw, on the cell \<open>idx\<close> chosen by its second.
  Below 0.33 it sets the temperature of that one cell to a value of at least 55 and leaves
  every other cell as it is. Below 0.66 it sets the temperature of the centre and of the
  first three entries of its neighbour list (never more than three) to values of at least
  45, hence at least 40, and leaves every other cell as it is. Otherwise it sets the voltage
  of that one cell to 1.15 times the average voltage of the pack before the injection.
\<close>

theorem simulateFault_archetypes:
  assumes len: "length bd = TOTAL_CELLS" and rnd: "\<forall>k. 0 \<le> rs k \<and> rs k < 1"
  defines "idx \<equiv> nat \<lfloor>rs 1 * real (length bd)\<rfloor>"
  defines "ns \<equiv> take 3 (getNeighbors idx)"
  shows "idx < length bd \<and>
    (if rs 0 < 0.33 then
       simulateFault rs bd = Inr (bd[idx := (bd ! idx)\<lparr>temperature := 55 + rs 2 * 10\<rparr>])
       \<and> 55 \<le> 55 + rs 2 * 10
     else if rs 0 < 0.66 then
       (\<exists>bd'. simulateFault rs bd = Inr bd' \<and> length bd' = length bd \<and> length ns \<le> 3
          \<and> bd' ! idx = (bd ! idx)\<lparr>temperature := 45 + rs 2 * 5\<rparr>
          \<and> (\<forall>m<length ns. bd' ! (ns ! m) = (bd ! (ns ! m))\<lparr>temperature := 45 + rs (3 + m) * 5\<rparr>)
          \<and> (\<forall>j<length bd. j \<noteq> idx \<and> j \<notin> set ns \<longrightarrow> bd' ! j = bd ! j)
          \<and> (\<forall>j<length bd. j = idx \<or> j \<in> set ns \<longrightarrow> 40 \<le> temperature (bd' ! j)))
     else
       simulateFault rs bd = Inr (bd[idx := (bd ! idx)\<lparr>voltage := 1.15 * avgVoltage bd\<rparr>]))"
proof -
  have r1: "0 \<le> rs 1" "rs 1 < 1" using rnd by simp_all
  have pos: "0 < length bd" using len by (simp add: TOTAL_CELLS_def)
  note fl = floor_index [OF r1 pos]
  have i: "idx < length bd" unfolding idx_def using fl by linarith
  have ii: "\<lfloor>rs 1 * real (length bd)\<rfloor> = int idx" unfolding idx_def using fl by simp
  have hot: "simulateFault rs bd = Inr (bd[idx := (bd ! idx)\<lparr>temperature := 55 + rs 2 * 10\<rparr>])"
    if "rs 0 < 0.33"
    unfolding simulateFault_def Let_def ii
    using that by (simp add: setTemperature_in_range [OF i] CRITICAL_TEMP_def)
  have ge: "55 \<le> 55 + rs 2 * 10" using rnd by simp
  have v: "foldl (\<lambda>sum c. sum + voltage c) 0 bd / real (length bd) * (1 + VOLTAGE_DEVIATION + 0.05)
             = 1.15 * avgVoltage bd"
    by (simp add: avgVoltage_def VOLTAGE_DEVIATION_def)
  have volt: "simulateFault rs bd = Inr (bd[idx := (bd ! idx)\<lparr>voltage := 1.15 * avgVoltage bd\<rparr>])"
    if "\<not> rs 0 < 0.33" "\<not> rs 0 < 0.66"
    unfolding simulateFault_def Let_def ii v
    using that by (simp add: setVoltage_in_range [OF i])
  have cluster: "\<exists>bd'. simulateFault rs bd = Inr bd' \<and> length bd' = length bd \<and> length ns \<le> 3
          \<and> bd' ! idx = (bd ! idx)\<lparr>temperature := 45 + rs 2 * 5\<rparr>
          \<and> (\<forall>m<length ns. bd' ! (ns ! m) = (bd ! (ns ! m))\<lparr>temperature := 45 + rs (3 + m) * 5\<rparr>)
          \<and> (\<forall>j<length bd. j \<noteq> idx \<and> j \<notin> set ns \<longrightarrow> bd' ! j = bd ! j)
          \<and> (\<forall>j<length bd. j = idx \<or> j \<in> set ns \<longrightarrow> 40 \<le> temperature (bd' ! j))"
    if b: "\<not> rs 0 < 0.33" "rs 0 < 0.66"
  proof -
    have it: "idx < TOTAL_CELLS" using i len by simp
    from simulateFault_cluster [OF len it, of rs] obtain bd' where bd':
      "(case setTemperature bd (int idx) (ELEVATED_MAX + rs 2 * 5) of
          Inl e \<Rightarrow> Inl e | Inr bd1 \<Rightarrow> heatNeighbors rs 3 ns bd1) = Inr bd'"
      "length bd' = length bd"
      "bd' ! idx = (bd ! idx)\<lparr>temperature := ELEVATED_MAX + rs 2 * 5\<rparr>"
      "\<forall>m<length ns. bd' ! (ns ! m) = (bd ! (ns ! m))\<lparr>temperature := ELEVATED_MAX + rs (3 + m) * 5\<rparr>"
      "\<forall>j<length bd. j \<noteq> idx \<and> j \<notin> set ns \<longrightarrow> bd' ! j = bd ! j"
      unfolding ns_def by blast
    have run: "simulateFault rs bd = Inr bd'"
      unfolding simulateFault_def Let_def ii nat_int ns_def [symmetric]
      using b bd'(1) by simp
    have warm: "40 \<le> temperature (bd' ! j)" if j: "j = idx \<or> j \<in> set ns" for j
    proof (cases "j = idx")
      case True
      have "0 \<le> rs 2" using rnd by simp
      then show ?thesis unfolding True bd'(3) by (simp add: ELEVATED_MAX_def)
    next
      case False
      with j obtain m where m: "m < length ns" "ns ! m = j" by (auto simp: in_set_conv_nth)
      have "0 \<le> rs (3 + m)" using rnd by simp
      then show ?thesis using bd'(4) m by (auto simp: ELEVATED_MAX_def)
    qed
    have l3: "length ns \<le> 3" unfolding ns_def by simp
    have c45: "bd' ! idx = (bd ! idx)\<lparr>temperature := 45 + rs 2 * 5\<rparr>"
      using bd'(3) by (simp add: ELEVATED_MAX_def)
    have n45: "\<forall>m<length ns. bd' ! (ns ! m) = (bd ! (ns ! m))\<lparr>temperature := 45 + rs (3 + m) * 5\<rparr>"
      using bd'(4) by (simp add: ELEVATED_MAX_def)
    have w40: "\<forall>j<length bd. j = idx \<or> j \<in> set ns \<longrightarrow> 40 \<le> temperature (bd' ! j)"
      using warm by blast
    show ?thesis using run bd'(2) l3 c45 n45 bd'(5) w40 by blast
  qed
  show ?thesis
  proof (cases "rs 0 < 0.33")
    case True
    then show ?thesis using i hot ge by simp
  next
    case False
    then show ?thesis using i volt cluster by (cases "rs 0 < 0.66") simp_all
  qed
qed

theorem simulateFault_archetypes_witness:
  "length pack0 = TOTAL_CELLS
   \<and> (\<forall>k. 0 \<le> drawsVoltageFault k \<and> drawsVoltageFault k < 1)
   \<and> simulateFault drawsVoltageFault pack0 = Inr (pack0[48 := (pack0 ! 48)\<lparr>voltage := 4.255\<rparr>])
   \<and> (\<forall>k. 0 \<le> drawsHotspot k \<and> drawsHotspot k < 1)
   \<and> simulateFault drawsHotspot pack0 = Inr (pack0[48 := (pack0 ! 48)\<lparr>temperature := 60\<rparr>])"
proof -
  have r: "\<forall>k. 0 \<le> drawsVoltageFault k \<and> drawsVoltageFault k < 1"
    by (simp add: drawsVoltageFault_def)
  have i: "nat \<lfloor>drawsVoltageFault 1 * real (length pack0)\<rfloor> = 48"
    by (simp add: drawsVoltageFault_def pack0_length TOTAL_CELLS_def)
  have volt: "simulateFault drawsVoltageFault pack0 = Inr (pack0[48 := (pack0 ! 48)\<lparr>voltage := 4.255\<rparr>])"
    using simulateFault_archetypes [OF pack0_length r]
    unfolding i pack0_avg by (simp add: drawsVoltageFault_def)
  have r': "\<forall>k. 0 \<le> drawsHotspot k \<and> drawsHotspot k < 1"
    by (simp add: drawsHotspot_def)
  have i': "nat \<lfloor>drawsHotspot 1 * real (length pack0)\<rfloor> = 48"
    by (simp add: drawsHotspot_def pack0_length TOTAL_CELLS_def)
  have hot: "simulateFault drawsHotspot pack0 = Inr (pack0[48 := (pack0 ! 48)\<lparr>temperature := 60\<rparr>])"
    using simulateFault_archetypes [OF pack0_length r']
    unfolding i' by (simp add: drawsHotspot_def)
  show ?thesis using pack0_length r volt r' hot by simp
qed

end
